theory Spec2Isabelle
  imports Main
begin

section \<open>The external indexing client (\<^verbatim>\<open>src/services/ExternalAIService.ts\<close>)\<close>

text \<open>
  JavaScript strings are modelled as \<^typ>\<open>string\<close>. Every test the client makes on a
  string looks at ASCII characters only (hexadecimal digits, the dash, the prefixes of a
  locator), so the verdicts do not depend on how characters beyond ASCII are encoded.
\<close>

subsection \<open>Validation: \<^verbatim>\<open>isValidUUID\<close> and \<^verbatim>\<open>isValidGitUrl\<close>\<close>

text \<open>
  \<^verbatim>\<open>startsWith\<close> of JavaScript: the argument is a prefix of the receiver.
\<close>

definition startsWith :: "string \<Rightarrow> string \<Rightarrow> bool" where
  "startsWith s p = (take (length p) s = p)"

text \<open>
  The character class \<^verbatim>\<open>[0-9a-f]\<close> under the flag \<^verbatim>\<open>i\<close>: without the flag
  \<^verbatim>\<open>u\<close>, case folding never maps a character beyond ASCII onto an ASCII one, so the class
  is the 22 characters below.
\<close>

definition isHexChar :: "char \<Rightarrow> bool" where
  "isHexChar c = (c \<in> set ''0123456789abcdefABCDEF'')"

text \<open>The character class \<^verbatim>\<open>[a-zA-Z]\<close>.\<close>

definition isAsciiLetter :: "char \<Rightarrow> bool" where
  "isAsciiLetter c =
     (c \<in> set ''abcdefghijklmnopqrstuvwxyzABCDEFGHIJKLMNOPQRSTUVWXYZ'')"

text \<open>
  The pieces of the regular expression
  \<^verbatim>\<open>/^[0-9a-f]{8}-[0-9a-f]{4}-[0-9a-f]{4}-[0-9a-f]{4}-[0-9a-f]{12}$/i\<close>,
  each matching at the head of the input and returning the rest: \<open>hexes n\<close> is
  \<^verbatim>\<open>[0-9a-f]{n}\<close> and \<open>dash\<close> is the literal \<^verbatim>\<open>-\<close>. The expression is anchored on both
  sides and has no multiline flag, so the match must consume the whole input.
\<close>

fun hexes :: "nat \<Rightarrow> string \<Rightarrow> string option" where
  "hexes 0 s = Some s"
| "hexes (Suc n) [] = None"
| "hexes (Suc n) (c # s) = (if isHexChar c then hexes n s else None)"

fun dash :: "string \<Rightarrow> string option" where
  "dash [] = None"
| "dash (c # s) = (if c = CHR ''-'' then Some s else None)"

definition isValidUUID :: "string \<Rightarrow> bool" where
  "isValidUUID uuid =
     (Option.bind (Option.bind (Option.bind (Option.bind (Option.bind (Option.bind
        (Option.bind (Option.bind (hexes 8 uuid) dash) (hexes 4)) dash) (hexes 4)) dash)
        (hexes 4)) dash) (hexes 12) = Some [])"

text \<open>
  \<^verbatim>\<open>isValidGitUrl\<close>: four prefixes, or the regular expression \<^verbatim>\<open>/^[a-zA-Z]:\\/\<close>
  (a letter, a colon, a backslash; the character with code 92).
\<close>

definition isWindowsPath :: "string \<Rightarrow> bool" where
  "isWindowsPath url =
     (case url of
        c1 # c2 # c3 # _ \<Rightarrow> isAsciiLetter c1 \<and> c2 = CHR '':'' \<and> c3 = char_of (92 :: nat)
      | _ \<Rightarrow> False)"

definition isValidGitUrl :: "string \<Rightarrow> bool" where
  "isValidGitUrl url =
     (startsWith url ''http://'' \<or>
      startsWith url ''https://'' \<or>
      startsWith url ''git@'' \<or>
      startsWith url ''/'' \<or>
      isWindowsPath url)"

subsection \<open>The network as the client sees it\<close>

text \<open>
  What \<^verbatim>\<open>await axios.post(...)\<close> can do. It resolves with a response, of which the client
  reads \<^verbatim>\<open>status\<close>; or it rejects with an error object, of which the client reads
  \<^verbatim>\<open>response?.status\<close>, \<^verbatim>\<open>response?.data?.message\<close>, \<^verbatim>\<open>code\<close> and \<^verbatim>\<open>message\<close>.
  With the request configuration of the source (no \<^verbatim>\<open>validateStatus\<close>), axios resolves on a
  2xx status and rejects on every other one, on a refused connection and on the 30 second
  timeout. axios is a library, not code of this repository: the outcome of each attempt is a
  parameter of the model.
\<close>

record axios_error =
  err_status :: "nat option"
  err_data_message :: "string option"
  err_code :: "string option"
  err_message :: string

datatype attempt_outcome = Resolved nat | Rejected axios_error

text \<open>The outcome of the \<open>n\<close>-th call of \<^verbatim>\<open>axios.post\<close> of one submission, \<open>n\<close> from 1.\<close>

type_synonym network = "nat \<Rightarrow> attempt_outcome"

text \<open>The value \<^verbatim>\<open>{ success: boolean; error?: string }\<close> the client returns.\<close>

record ai_result =
  success :: bool
  error :: "string option"

text \<open>What the client does to the outside, in order: a request, or a backoff wait in ms.\<close>

datatype client_event = Post nat | Sleep nat

text \<open>\<^verbatim>\<open>a || b\<close> on an optional string: \<^verbatim>\<open>undefined\<close> and the empty string are falsy.\<close>

definition js_or :: "string option \<Rightarrow> string \<Rightarrow> string" where
  "js_or a b = (case a of Some s \<Rightarrow> (if s = [] then b else s) | None \<Rightarrow> b)"

text \<open>A status code in a template literal: the decimal digits of a natural number.\<close>

fun show_nat :: "nat \<Rightarrow> string" where
  "show_nat n =
     (if n < 10 then [char_of (48 + n)]
      else show_nat (n div 10) @ [char_of (48 + n mod 10)])"

declare show_nat.simps [simp del]

definition maxRetries :: nat where
  "maxRetries = 3"

text \<open>
  \<^verbatim>\<open>statusCode && statusCode >= 400 && statusCode < 500\<close> and
  \<^verbatim>\<open>statusCode && statusCode >= 500\<close>, on \<^verbatim>\<open>error.response?.status\<close>.
\<close>

definition isClientError :: "nat option \<Rightarrow> bool" where
  "isClientError statusCode =
     (case statusCode of Some c \<Rightarrow> c \<noteq> 0 \<and> 400 \<le> c \<and> c < 500 | None \<Rightarrow> False)"

text \<open>
  The loop \<^verbatim>\<open>for (let attempt = 1; attempt <= maxRetries; attempt++)\<close> with its
  \<^verbatim>\<open>try\<close>/\<^verbatim>\<open>catch\<close>. The three branches of the source that tell a server error from a
  network error from an unknown one only choose what is logged; all three fall through to the
  test of \<^verbatim>\<open>isLastAttempt\<close>. The delay is \<^verbatim>\<open>Math.pow(2, attempt - 1) * 1000\<close>, exact on these
  small integers.
\<close>

function attempts :: "network \<Rightarrow> nat \<Rightarrow> ai_result \<times> client_event list" where
  "attempts net attempt =
     (if attempt \<le> maxRetries then
        (case net attempt of
           Resolved st \<Rightarrow>
             if st = 200 \<or> st = 201 then
               (\<lparr>success = True, error = None\<rparr>, [Post attempt])
             else
               (\<lparr>success = False, error = Some (''Unexpected status: '' @ show_nat st)\<rparr>,
                [Post attempt])
         | Rejected e \<Rightarrow>
             if isClientError (err_status e) then
               (\<lparr>success = False,
                 error = Some (''Client error: '' @ js_or (err_data_message e) (err_message e))\<rparr>,
                [Post attempt])
             else if attempt = maxRetries then
               (\<lparr>success = False,
                 error = Some (js_or (Some (js_or (err_data_message e) (err_message e)))
                                 ''Unknown error'')\<rparr>,
                [Post attempt])
             else
               (case attempts net (attempt + 1) of
                  (r, evs) \<Rightarrow> (r, Post attempt # Sleep (2 ^ (attempt - 1) * 1000) # evs)))
      else (\<lparr>success = False, error = Some ''Max retries exceeded''\<rparr>, []))"
  by pat_completeness auto
termination
  by (relation "measure (\<lambda>(net, attempt). maxRetries + 1 - attempt)") auto

declare attempts.simps [simp del]

text \<open>
  \<^verbatim>\<open>sendRepositoryToAI(projectId, repoUrl, repoId)\<close>: the two validations, then the loop.
  \<^verbatim>\<open>repoId\<close> is only logged.
\<close>

definition sendRepositoryToAI ::
  "network \<Rightarrow> string \<Rightarrow> string \<Rightarrow> 'i \<Rightarrow> ai_result \<times> client_event list" where
  "sendRepositoryToAI net projectId repoUrl repoId =
     (if \<not> isValidUUID projectId then
        (\<lparr>success = False, error = Some ''Invalid project ID format''\<rparr>, [])
      else if \<not> isValidGitUrl repoUrl then
        (\<lparr>success = False, error = Some ''Invalid Git URL format''\<rparr>, [])
      else attempts net 1)"

text \<open>The requests and the waits of a trace.\<close>

definition posts :: "client_event list \<Rightarrow> nat list" where
  "posts evs = [n. Post n \<leftarrow> evs]"

definition sleeps :: "client_event list \<Rightarrow> nat list" where
  "sleeps evs = [d. Sleep d \<leftarrow> evs]"

section \<open>The dependency graph store (\<^verbatim>\<open>ProjectService\<close>)\<close>

text \<open>
  The controller keeps repositories and dependency edges through \<^verbatim>\<open>ProjectService\<close>, whose
  file is not among the sources: only its callers are. Its six operations are modelled from
  section 4.3 of the specification, with the signatures the controller calls them with. An
  operation that throws returns \<open>Inl\<close> of the error's message.
\<close>

datatype repo_status = UNTRACKED | PENDING | INDEXED | FAILED

type_synonym repo_id = nat

text \<open>
  Modelled from the spec: the rows the missing \<^verbatim>\<open>ProjectService\<close> keeps, after section 3.
  A repository has an identifier, a project, a name, a locator, a type and a status (the
  fields the controller reads are \<^verbatim>\<open>id\<close>, \<^verbatim>\<open>projectId\<close>, \<^verbatim>\<open>name\<close>, \<^verbatim>\<open>url\<close>, \<^verbatim>\<open>type\<close>
  and \<^verbatim>\<open>status\<close>); a dependency is a directed edge from a source to a target. Identifiers
  are opaque keys (the code only compares them and passes them on); \<open>repo_type\<close> is the
  string the request gave, of which the code only asks whether it is \<^verbatim>\<open>'SERVER'\<close>.
\<close>

record repository =
  repo_id :: repo_id
  repo_projectId :: string
  repo_name :: string
  repo_url :: string
  repo_type :: string
  repo_status :: repo_status

record dependency =
  dep_source :: repo_id
  dep_target :: repo_id

record store =
  repos :: "repository list"
  deps :: "dependency list"

definition empty_store :: store where
  "empty_store = \<lparr>repos = [], deps = []\<rparr>"

text \<open>
  Modelled from the spec: \<^verbatim>\<open>ProjectService.getRepo\<close> is missing from the sources. Section 4.3,
  \<^verbatim>\<open>getRepository(repoId)\<close>: the repository with that identifier, or none (the controller
  tests the result for being there).
\<close>

definition ProjectService_getRepo :: "store \<Rightarrow> repo_id \<Rightarrow> repository option" where
  "ProjectService_getRepo st rid = find (\<lambda>r. repo_id r = rid) (repos st)"

text \<open>
  Modelled from the spec: the identifier the missing \<^verbatim>\<open>ProjectService.addRepo\<close> gives a new
  repository. Section 3 gives every repository an identifier of its own; here it is one more
  than the largest one stored.
\<close>

definition fresh_id :: "store \<Rightarrow> repo_id" where
  "fresh_id st = Suc (fold max (map repo_id (repos st)) 0)"

text \<open>
  Modelled from the spec: \<^verbatim>\<open>ProjectService.addRepo\<close> is missing from the sources. Section 4.3,
  \<^verbatim>\<open>addRepository\<close>: a new repository of the project with the given name, locator and type
  is stored and returned. The initial status is the fifth argument, as the controller passes
  it. The specification names no failure of this operation.
\<close>

definition ProjectService_addRepo ::
  "store \<Rightarrow> string \<Rightarrow> string \<Rightarrow> string \<Rightarrow> string \<Rightarrow> repo_status \<Rightarrow> string + repository \<times> store"
  where
  "ProjectService_addRepo st projectId name url type initialStatus =
     (let repo = \<lparr>repo_id = fresh_id st, repo_projectId = projectId, repo_name = name,
                   repo_url = url, repo_type = type, repo_status = initialStatus\<rparr>
      in Inr (repo, st\<lparr>repos := repos st @ [repo]\<rparr>))"

text \<open>
  Modelled from the spec: \<^verbatim>\<open>ProjectService.updateRepoStatus\<close> is missing from the sources.
  Section 4.4 writes a status as \<open>R.status := s\<close> under the precondition that \<open>R\<close> exists; the
  controller uses the returned value as the repository after the write.
\<close>

definition ProjectService_updateRepoStatus ::
  "store \<Rightarrow> repo_id \<Rightarrow> repo_status \<Rightarrow> string + repository \<times> store" where
  "ProjectService_updateRepoStatus st rid s =
     (case ProjectService_getRepo st rid of
        None \<Rightarrow> Inl ''NotFound''
      | Some r \<Rightarrow>
          Inr (r\<lparr>repo_status := s\<rparr>,
               st\<lparr>repos := map (\<lambda>x. if repo_id x = rid then x\<lparr>repo_status := s\<rparr> else x)
                               (repos st)\<rparr>))"

text \<open>
  Modelled from the spec: \<^verbatim>\<open>ProjectService.addDependency\<close> is missing from the sources.
  Section 4.3: fails with \<^verbatim>\<open>NotFound\<close> if either repository is unknown; adding an edge that
  exists is a success that changes nothing, so there are no parallel edges.
\<close>

definition ProjectService_addDependency ::
  "store \<Rightarrow> repo_id \<Rightarrow> repo_id \<Rightarrow> string + dependency \<times> store" where
  "ProjectService_addDependency st sourceId targetId =
     (if ProjectService_getRepo st sourceId = None \<or> ProjectService_getRepo st targetId = None
      then Inl ''NotFound''
      else
        (let dep = \<lparr>dep_source = sourceId, dep_target = targetId\<rparr>
         in if dep \<in> set (deps st) then Inr (dep, st)
            else Inr (dep, st\<lparr>deps := deps st @ [dep]\<rparr>)))"

text \<open>
  Modelled from the spec: \<^verbatim>\<open>ProjectService.removeDependency\<close> is missing from the sources.
  Section 4.3: fails with \<^verbatim>\<open>NotFound\<close> if the edge does not exist; otherwise removes it.
\<close>

definition ProjectService_removeDependency ::
  "store \<Rightarrow> repo_id \<Rightarrow> repo_id \<Rightarrow> string + store" where
  "ProjectService_removeDependency st sourceId targetId =
     (let dep = \<lparr>dep_source = sourceId, dep_target = targetId\<rparr>
      in if dep \<in> set (deps st) then Inr (st\<lparr>deps := removeAll dep (deps st)\<rparr>)
         else Inl ''NotFound'')"

text \<open>
  Modelled from the spec: \<^verbatim>\<open>ProjectService.countIncomingDependencies\<close> is missing from the
  sources. Section 4.3, \<^verbatim>\<open>incomingDegree(repoId)\<close>: the number of edges whose target is the
  repository.
\<close>

definition ProjectService_countIncomingDependencies :: "store \<Rightarrow> repo_id \<Rightarrow> nat" where
  "ProjectService_countIncomingDependencies st targetId =
     length (filter (\<lambda>d. dep_target d = targetId) (deps st))"

section \<open>The status orchestrator (\<^verbatim>\<open>ProjectController\<close>)\<close>

subsection \<open>Requests, responses and effects\<close>

text \<open>A JSON value, for the graph the read path hands through.\<close>

datatype json =
    JNull
  | JBool bool
  | JNumber int
  | JString string
  | JArray "json list"
  | JObject "(string \<times> json) list"

text \<open>What a handler answers: \<^verbatim>\<open>res.status(code).json(body)\<close>, the code 200 by default.\<close>

datatype body =
    RepoBody repository
  | DependencyBody dependency
  | SuccessBody
  | ErrorBody string
  | JsonBody json

datatype response = Response nat body

text \<open>
  The arguments of one call \<^verbatim>\<open>sendRepositoryToAI(projectId, url, id)\<close>, launched without
  \<^verbatim>\<open>await\<close>: the handler goes on and answers while the submission is in flight.
\<close>

record task =
  task_projectId :: string
  task_url :: string
  task_repoId :: repo_id

text \<open>
  What a handler and the continuation of a submission do, in the order of the source:
  \<^item> \<open>Stored r\<close>: an awaited call of \<^verbatim>\<open>addRepo\<close> or \<^verbatim>\<open>updateRepoStatus\<close> has returned \<open>r\<close>,
    the repository as the store now holds it;
  \<^item> \<open>Emit e p r\<close>: \<^verbatim>\<open>io.emit(e, { projectId: p, repository: r })\<close>;
  \<^item> \<open>Submit t\<close>: \<^verbatim>\<open>sendRepositoryToAI\<close> is called with the arguments \<open>t\<close>;
  \<^item> \<open>Client ev\<close>: a request or a wait of the client, inside that call;
  \<^item> \<open>Settled t r\<close>: the promise of that call is fulfilled with \<open>r\<close>.
\<close>

datatype effect =
    Stored repository
  | Emit string string repository
  | Submit task
  | Client client_event
  | Settled task ai_result

definition submissions :: "effect list \<Rightarrow> task list" where
  "submissions effs = [t. Submit t \<leftarrow> effs]"

subsection \<open>The handlers\<close>

text \<open>
  \<^verbatim>\<open>ProjectController.addRepo\<close>. The body of the request gives \<^verbatim>\<open>projectId\<close>, \<^verbatim>\<open>name\<close>,
  \<^verbatim>\<open>url\<close> and \<^verbatim>\<open>type\<close>. A handler returns its response, the store it leaves and its effects.
\<close>

definition ProjectController_addRepo ::
  "store \<Rightarrow> string \<Rightarrow> string \<Rightarrow> string \<Rightarrow> string \<Rightarrow> response \<times> store \<times> effect list" where
  "ProjectController_addRepo st projectId name url type =
     (let initialStatus = (if type = ''SERVER'' then PENDING else UNTRACKED) in
      case ProjectService_addRepo st projectId name url type initialStatus of
        Inl msg \<Rightarrow>
          (if startsWith msg ''SERVER_REQUIRED'' then Response 400 (ErrorBody msg)
           else Response 500 (ErrorBody msg),
           st, [])
      | Inr (repo, st1) \<Rightarrow>
          (Response 200 (RepoBody repo), st1,
           [Stored repo, Emit ''repository:added'' projectId repo] @
           (if type = ''SERVER'' then
              [Submit \<lparr>task_projectId = projectId, task_url = url, task_repoId = repo_id repo\<rparr>]
            else [])))"

text \<open>\<^verbatim>\<open>ProjectController.createDependency\<close>.\<close>

definition ProjectController_createDependency ::
  "store \<Rightarrow> repo_id \<Rightarrow> repo_id \<Rightarrow> response \<times> store \<times> effect list" where
  "ProjectController_createDependency st sourceRepoId targetRepoId =
     (case ProjectService_addDependency st sourceRepoId targetRepoId of
        Inl msg \<Rightarrow> (Response 500 (ErrorBody msg), st, [])
      | Inr (dep, st1) \<Rightarrow>
          (case ProjectService_getRepo st1 targetRepoId of
             None \<Rightarrow> (Response 200 (DependencyBody dep), st1, [])
           | Some targetRepo \<Rightarrow>
               if repo_status targetRepo = UNTRACKED then
                 (case ProjectService_updateRepoStatus st1 (repo_id targetRepo) PENDING of
                    Inl msg \<Rightarrow> (Response 500 (ErrorBody msg), st1, [])
                  | Inr (pendingRepo, st2) \<Rightarrow>
                      (Response 200 (DependencyBody dep), st2,
                       [Stored pendingRepo,
                        Emit ''repository:updated'' (repo_projectId pendingRepo) pendingRepo,
                        Submit \<lparr>task_projectId = repo_projectId pendingRepo,
                                task_url = repo_url pendingRepo,
                                task_repoId = repo_id pendingRepo\<rparr>]))
               else (Response 200 (DependencyBody dep), st1, [])))"

text \<open>\<^verbatim>\<open>ProjectController.deleteDependency\<close>.\<close>

definition ProjectController_deleteDependency ::
  "store \<Rightarrow> repo_id \<Rightarrow> repo_id \<Rightarrow> response \<times> store \<times> effect list" where
  "ProjectController_deleteDependency st sourceRepoId targetRepoId =
     (case ProjectService_removeDependency st sourceRepoId targetRepoId of
        Inl msg \<Rightarrow> (Response 500 (ErrorBody msg), st, [])
      | Inr st1 \<Rightarrow>
          (let incomingCount = ProjectService_countIncomingDependencies st1 targetRepoId in
           if incomingCount = 0 then
             (case ProjectService_getRepo st1 targetRepoId of
                None \<Rightarrow> (Response 200 SuccessBody, st1, [])
              | Some targetRepo \<Rightarrow>
                  if repo_type targetRepo \<noteq> ''SERVER'' then
                    (case ProjectService_updateRepoStatus st1 (repo_id targetRepo) UNTRACKED of
                       Inl msg \<Rightarrow> (Response 500 (ErrorBody msg), st1, [])
                     | Inr (untrackedRepo, st2) \<Rightarrow>
                         (Response 200 SuccessBody, st2,
                          [Stored untrackedRepo,
                           Emit ''repository:updated'' (repo_projectId untrackedRepo)
                             untrackedRepo]))
                  else (Response 200 SuccessBody, st1, []))
           else (Response 200 SuccessBody, st1, [])))"

subsection \<open>The continuation of a submission\<close>

text \<open>
  The chain \<^verbatim>\<open>.then(async (result) => ...).catch(async (err) => ...)\<close> on the promise of
  \<^verbatim>\<open>sendRepositoryToAI\<close>, the same in \<^verbatim>\<open>addRepo\<close> and in \<^verbatim>\<open>createDependency\<close>: on
  fulfilment the status becomes \<^verbatim>\<open>INDEXED\<close> or \<^verbatim>\<open>FAILED\<close> and the update is emitted. If the
  write throws, the \<^verbatim>\<open>catch\<close> callback tries to write \<^verbatim>\<open>FAILED\<close>; if that throws too, the
  rejection has no handler and nothing more happens. It runs on the store as it is when the
  promise settles.
\<close>

definition terminal_status :: "ai_result \<Rightarrow> repo_status" where
  "terminal_status result = (if success result then INDEXED else FAILED)"

definition submission_settled :: "store \<Rightarrow> task \<Rightarrow> ai_result \<Rightarrow> store \<times> effect list" where
  "submission_settled st t result =
     (case ProjectService_updateRepoStatus st (task_repoId t) (terminal_status result) of
        Inr (updatedRepo, st1) \<Rightarrow>
          (st1, [Stored updatedRepo, Emit ''repository:updated'' (task_projectId t) updatedRepo])
      | Inl msg \<Rightarrow>
          (case ProjectService_updateRepoStatus st (task_repoId t) FAILED of
             Inr (failedRepo, st1) \<Rightarrow>
               (st1, [Stored failedRepo, Emit ''repository:updated'' (task_projectId t) failedRepo])
           | Inl msg' \<Rightarrow> (st, [])))"

text \<open>
  A submission from its first request to the end of its continuation, against a network:
  the client runs, its promise settles, the continuation runs.
\<close>

definition complete_submission :: "network \<Rightarrow> store \<Rightarrow> task \<Rightarrow> store \<times> effect list" where
  "complete_submission net st t =
     (case sendRepositoryToAI net (task_projectId t) (task_url t) (task_repoId t) of
        (result, evs) \<Rightarrow>
          (case submission_settled st t result of
             (st1, effs) \<Rightarrow> (st1, map Client evs @ [Settled t result] @ effs)))"

subsection \<open>Triggering events and the states the orchestrator reaches\<close>

datatype trigger =
    AddRepo string string string string
  | CreateDependency repo_id repo_id
  | DeleteDependency repo_id repo_id

fun handle :: "store \<Rightarrow> trigger \<Rightarrow> response \<times> store \<times> effect list" where
  "handle st (AddRepo projectId name url type) = ProjectController_addRepo st projectId name url type"
| "handle st (CreateDependency sourceRepoId targetRepoId) =
     ProjectController_createDependency st sourceRepoId targetRepoId"
| "handle st (DeleteDependency sourceRepoId targetRepoId) =
     ProjectController_deleteDependency st sourceRepoId targetRepoId"

text \<open>
  Everything one triggering event does when no other request is served before its
  submission settles: the handler runs, then each submission it launched runs to the end of
  its continuation, on the store the handler left. The result is the store at the end and
  the effects in order.
\<close>

fun complete_all :: "network \<Rightarrow> store \<Rightarrow> task list \<Rightarrow> store \<times> effect list" where
  "complete_all net st [] = (st, [])"
| "complete_all net st (t # ts) =
     (case complete_submission net st t of
        (st1, effs) \<Rightarrow>
          (case complete_all net st1 ts of (st2, effs2) \<Rightarrow> (st2, effs @ effs2)))"

definition run_event :: "network \<Rightarrow> store \<Rightarrow> trigger \<Rightarrow> store \<times> effect list" where
  "run_event net st trig =
     (case handle st trig of
        (resp, st1, effs) \<Rightarrow>
          (case complete_all net st1 (submissions effs) of
             (st2, effs2) \<Rightarrow> (st2, effs @ effs2)))"

text \<open>
  The server as a whole: the store and the submissions in flight. A request runs its handler
  to the end (the handlers only suspend on the store); a submission in flight settles at any
  later moment, against any network.
\<close>

record system =
  sys_store :: store
  in_flight :: "task list"

inductive reachable :: "system \<Rightarrow> bool" where
  start: "reachable \<lparr>sys_store = empty_store, in_flight = []\<rparr>"
| request:
    "reachable s \<Longrightarrow> handle (sys_store s) trig = (resp, st1, effs) \<Longrightarrow>
     reachable \<lparr>sys_store = st1, in_flight = in_flight s @ submissions effs\<rparr>"
| settle:
    "reachable s \<Longrightarrow> i < length (in_flight s) \<Longrightarrow>
     complete_submission net (sys_store s) (in_flight s ! i) = (st1, effs) \<Longrightarrow>
     reachable \<lparr>sys_store = st1, in_flight = take i (in_flight s) @ drop (Suc i) (in_flight s)\<rparr>"

subsection \<open>The read path: \<^verbatim>\<open>ProjectController.getGraph\<close>\<close>

text \<open>
  What \<^verbatim>\<open>await fetch(endpoint)\<close> followed by \<^verbatim>\<open>await response.json()\<close> can do: \<^verbatim>\<open>fetch\<close>
  rejects (a network error), or it resolves with a response of which the handler reads
  \<^verbatim>\<open>ok\<close> and \<^verbatim>\<open>status\<close>, and whose body parses as JSON or does not (\<open>None\<close>). \<^verbatim>\<open>fetch\<close> is
  the runtime's, not code of this repository: its outcome is a parameter of the model.
\<close>

record fetch_response =
  resp_ok :: bool
  resp_status :: nat
  resp_json :: "json option"

datatype fetch_outcome = FetchRejected string | FetchResolved fetch_response

definition empty_graph :: json where
  "empty_graph = JObject [(''nodes'', JArray []), (''edges'', JArray [])]"

text \<open>
  The query gives \<^verbatim>\<open>projectId\<close> or not; \<^verbatim>\<open>!projectId\<close> also holds of the empty string.
  \<open>env\<close> is \<^verbatim>\<open>process.env.EXTERNAL_AI_API_URL\<close>.
\<close>

definition ProjectController_getGraph ::
  "string option \<Rightarrow> (string \<Rightarrow> fetch_outcome) \<Rightarrow> string option \<Rightarrow> response" where
  "ProjectController_getGraph env fetch query_projectId =
     (case query_projectId of
        None \<Rightarrow> Response 400 (ErrorBody ''projectId is required'')
      | Some projectId \<Rightarrow>
          if projectId = [] then Response 400 (ErrorBody ''projectId is required'')
          else
            (let aiUrl = js_or env ''http://localhost:8000'';
                 endpoint = aiUrl @ ''/graph-data?project_id='' @ projectId
             in case fetch endpoint of
                  FetchRejected msg \<Rightarrow> Response 200 (JsonBody empty_graph)
                | FetchResolved r \<Rightarrow>
                    if \<not> resp_ok r then Response 200 (JsonBody empty_graph)
                    else
                      (case resp_json r of
                         None \<Rightarrow> Response 200 (JsonBody empty_graph)
                       | Some data \<Rightarrow> Response 200 (JsonBody data))))"

subsection \<open>The invariant of the store, and a small project\<close>

text \<open>
  What every reachable store satisfies: identifiers are unique, and a repository of type
  \<^verbatim>\<open>SERVER\<close> is not \<^verbatim>\<open>UNTRACKED\<close>.
\<close>

definition store_inv :: "store \<Rightarrow> bool" where
  "store_inv st =
     (distinct (map repo_id (repos st)) \<and>
      (\<forall>r \<in> set (repos st). repo_type r = ''SERVER'' \<longrightarrow> repo_status r \<noteq> UNTRACKED))"

text \<open>
  The project of the scenario of section 8 of the specification: a server repository \<open>A\<close>
  and a web repository \<open>B\<close>, and the submission of \<open>A\<close>.
\<close>

definition repoA :: repository where
  "repoA = \<lparr>repo_id = 1, repo_projectId = ''123e4567-e89b-12d3-a456-426614174000'',
     repo_name = ''api'', repo_url = ''https://github.com/acme/api.git'',
     repo_type = ''SERVER'', repo_status = PENDING\<rparr>"

definition repoB :: repository where
  "repoB = \<lparr>repo_id = 2, repo_projectId = ''123e4567-e89b-12d3-a456-426614174000'',
     repo_name = ''web'', repo_url = ''https://github.com/acme/web.git'',
     repo_type = ''WEB'', repo_status = UNTRACKED\<rparr>"

definition taskA :: task where
  "taskA = \<lparr>task_projectId = ''123e4567-e89b-12d3-a456-426614174000'',
     task_url = ''https://github.com/acme/api.git'', task_repoId = 1\<rparr>"

subsection \<open>The validation predicates in the words of the specification\<close>

text \<open>
  These two definitions follow the wording of the specification (section 4.1), not the
  source; they are compared with \<open>isValidUUID\<close> and \<open>isValidGitUrl\<close> below.
  \<open>spec_isValidIdentifier\<close>: the canonical UUID textual form, 8-4-4-4-12 hexadecimal groups,
  case-insensitive. \<open>spec_isValidSourceLocator\<close>: the locator begins with \<^verbatim>\<open>http://\<close>,
  \<^verbatim>\<open>https://\<close>, \<^verbatim>\<open>git@\<close>, an absolute POSIX path (\<^verbatim>\<open>/\<close>), or a drive-letter absolute
  path (a letter, a colon, a backslash).
\<close>

definition spec_begins_with :: "string \<Rightarrow> string \<Rightarrow> bool" where
  "spec_begins_with s p = (\<exists>rest. s = p @ rest)"

definition spec_isValidIdentifier :: "string \<Rightarrow> bool" where
  "spec_isValidIdentifier s =
     (\<exists>a b c d e. s = a @ ''-'' @ b @ ''-'' @ c @ ''-'' @ d @ ''-'' @ e \<and>
        length a = 8 \<and> length b = 4 \<and> length c = 4 \<and> length d = 4 \<and> length e = 12 \<and>
        list_all isHexChar (a @ b @ c @ d @ e))"

definition spec_isValidSourceLocator :: "string \<Rightarrow> bool" where
  "spec_isValidSourceLocator s =
     (spec_begins_with s ''http://'' \<or> spec_begins_with s ''https://'' \<or>
      spec_begins_with s ''git@'' \<or> spec_begins_with s ''/'' \<or>
      (\<exists>l. isAsciiLetter l \<and> spec_begins_with s [l, CHR '':'', char_of (92 :: nat)]))"

section \<open>Properties of the indexing client\<close>

subsection \<open>The validation predicates are the ones the specification describes\<close>

lemma hexes_Some:
  "hexes n s = Some r \<longleftrightarrow> (\<exists>a. s = a @ r \<and> length a = n \<and> list_all isHexChar a)"
proof (induction n arbitrary: s)
  case 0
  show ?case by auto
next
  case (Suc n)
  show ?case
  proof (cases s)
    case Nil
    then show ?thesis by auto
  next
    case (Cons c t)
    show ?thesis
    proof
      assume "hexes (Suc n) s = Some r"
      with Cons have c: "isHexChar c" and t: "hexes n t = Some r"
        by (auto split: if_splits)
      from t Suc.IH obtain a where "t = a @ r" "length a = n" "list_all isHexChar a"
        by blast
      with c Cons have "s = (c # a) @ r \<and> length (c # a) = Suc n \<and> list_all isHexChar (c # a)"
        by simp
      then show "\<exists>a. s = a @ r \<and> length a = Suc n \<and> list_all isHexChar a"
        by blast
    next
      assume "\<exists>a. s = a @ r \<and> length a = Suc n \<and> list_all isHexChar a"
      then obtain a where a: "s = a @ r" "length a = Suc n" "list_all isHexChar a"
        by blast
      then obtain x a' where xa: "a = x # a'"
        by (cases a) auto
      with a Cons have "c = x" "t = a' @ r" "length a' = n" "list_all isHexChar a'" "isHexChar c"
        by auto
      with Suc.IH Cons show "hexes (Suc n) s = Some r"
        by auto
    qed
  qed
qed

lemma dash_Some: "dash s = Some r \<longleftrightarrow> s = ''-'' @ r"
  by (cases s) auto

lemma bind_eq_Some: "Option.bind m f = Some r \<longleftrightarrow> (\<exists>x. m = Some x \<and> f x = Some r)"
  by (cases m) auto

lemma isValidUUID_spec: "isValidUUID s = spec_isValidIdentifier s"
  unfolding isValidUUID_def spec_isValidIdentifier_def bind_eq_Some hexes_Some dash_Some
  apply (rule iffI)
   apply (elim exE conjE)
   apply simp
   apply blast
  apply (elim exE conjE)
  apply simp
  apply blast
  done

lemma startsWith_spec: "startsWith s p = spec_begins_with s p"
  unfolding startsWith_def spec_begins_with_def
  by (metis append_eq_conv_conj append_take_drop_id)

lemma isWindowsPath_spec:
  "isWindowsPath s =
     (\<exists>l. isAsciiLetter l \<and> spec_begins_with s [l, CHR '':'', char_of (92 :: nat)])"
  unfolding isWindowsPath_def spec_begins_with_def
  by (auto split: list.splits)

lemma isValidGitUrl_spec: "isValidGitUrl s = spec_isValidSourceLocator s"
  unfolding isValidGitUrl_def spec_isValidSourceLocator_def startsWith_spec isWindowsPath_spec
  by (rule refl)

lemma valid_projectId: "isValidUUID ''123e4567-e89b-12d3-a456-426614174000''"
  by (simp add: isValidUUID_def isHexChar_def eval_nat_numeral)

lemma valid_repoUrl: "isValidGitUrl ''https://github.com/acme/api.git''"
  by (simp add: isValidGitUrl_def startsWith_def)

lemma invalid_projectId: "\<not> isValidUUID ''project-1''"
  by (simp add: isValidUUID_def isHexChar_def eval_nat_numeral)

subsection \<open>Unfolding the retry loop\<close>

lemma attempts_retry:
  assumes "net a = Rejected e" "\<not> isClientError (err_status e)" "a < maxRetries"
    and "attempts net (a + 1) = (r, evs)"
  shows "attempts net a = (r, Post a # Sleep (2 ^ (a - 1) * 1000) # evs)"
  using assms by (subst attempts.simps) simp

lemma attempts_ok:
  assumes "net a = Resolved 200" "a \<le> maxRetries"
  shows "attempts net a = (\<lparr>success = True, error = None\<rparr>, [Post a])"
  using assms by (subst attempts.simps) simp

lemma attempts_bounds:
  "length (posts (snd (attempts net a))) \<le> maxRetries + 1 - a \<and>
   length (sleeps (snd (attempts net a))) \<le> maxRetries - a"
proof (induction net a rule: attempts.induct)
  case (1 net attempt)
  show ?case
  proof (cases "attempt \<le> maxRetries")
    case False
    then show ?thesis
      by (subst (1 2) attempts.simps) (simp add: posts_def sleeps_def)
  next
    case le: True
    show ?thesis
    proof (cases "net attempt")
      case (Resolved st)
      with le show ?thesis
        by (subst (1 2) attempts.simps) (auto simp add: posts_def sleeps_def)
    next
      case (Rejected e)
      show ?thesis
      proof (cases "isClientError (err_status e) \<or> attempt = maxRetries")
        case True
        with le Rejected show ?thesis
          by (subst (1 2) attempts.simps) (auto simp add: posts_def sleeps_def)
      next
        case False
        with le Rejected have IH:
          "length (posts (snd (attempts net (attempt + 1)))) \<le> maxRetries + 1 - (attempt + 1)"
          "length (sleeps (snd (attempts net (attempt + 1)))) \<le> maxRetries - (attempt + 1)"
          using "1.IH" by auto
        from False le have lt: "attempt < maxRetries" by auto
        obtain r evs where rec: "attempts net (attempt + 1) = (r, evs)"
          by (cases "attempts net (attempt + 1)")
        from IH rec have "length (posts evs) \<le> maxRetries - attempt"
          "length (sleeps evs) \<le> maxRetries - (attempt + 1)" by auto
        with lt have "length (posts (Post attempt # Sleep (2 ^ (attempt - 1) * 1000) # evs))
              \<le> maxRetries + 1 - attempt"
          "length (sleeps (Post attempt # Sleep (2 ^ (attempt - 1) * 1000) # evs))
              \<le> maxRetries - attempt"
          by (auto simp add: posts_def sleeps_def)
        moreover from False Rejected lt rec have
          "snd (attempts net attempt) = Post attempt # Sleep (2 ^ (attempt - 1) * 1000) # evs"
          using attempts_retry [of net attempt e r evs] by simp
        ultimately show ?thesis by simp
      qed
    qed
  qed
qed

subsection \<open>The claims about the client\<close>

text \<open>
  Claim C5. A submission with a valid project identifier and locator whose first two
  requests are rejected with an HTTP 5xx status and whose third request resolves with
  HTTP 200 returns success; the client makes exactly three requests and waits exactly twice
  between them, 1000 ms before the second request and 2000 ms before the third
  (\<open>2 ^ (attempt - 1)\<close> seconds).
\<close>

theorem retry_law_5xx_5xx_200:
  assumes "isValidUUID projectId" and "isValidGitUrl repoUrl"
    and "net 1 = Rejected e1" and "err_status e1 = Some c1" and "500 \<le> c1" and "c1 < 600"
    and "net 2 = Rejected e2" and "err_status e2 = Some c2" and "500 \<le> c2" and "c2 < 600"
    and "net 3 = Resolved 200"
  shows "sendRepositoryToAI net projectId repoUrl repoId =
    (\<lparr>success = True, error = None\<rparr>, [Post 1, Sleep 1000, Post 2, Sleep 2000, Post 3])"
proof -
  have n1: "\<not> isClientError (err_status e1)" and n2: "\<not> isClientError (err_status e2)"
    using assms by (simp_all add: isClientError_def)
  have a3: "attempts net 3 = (\<lparr>success = True, error = None\<rparr>, [Post 3])"
    using attempts_ok [of net 3] assms by (simp add: maxRetries_def)
  have lt1: "(1 :: nat) < maxRetries" and lt2: "(2 :: nat) < maxRetries"
    by (simp_all add: maxRetries_def)
  have "attempts net (2 + 1) = (\<lparr>success = True, error = None\<rparr>, [Post 3])"
    using a3 by simp
  from attempts_retry [OF assms(7) n2 lt2 this]
  have a2: "attempts net 2 = (\<lparr>success = True, error = None\<rparr>, [Post 2, Sleep 2000, Post 3])"
    by simp
  have "attempts net (1 + 1) =
      (\<lparr>success = True, error = None\<rparr>, [Post 2, Sleep 2000, Post 3])"
    unfolding one_add_one by (rule a2)
  from attempts_retry [OF assms(3) n1 lt1 this]
  have a1: "attempts net 1 =
      (\<lparr>success = True, error = None\<rparr>, [Post 1, Sleep 1000, Post 2, Sleep 2000, Post 3])"
    by simp
  with assms show ?thesis
    by (simp add: sendRepositoryToAI_def)
qed

theorem retry_law_5xx_5xx_200_witness:
  "sendRepositoryToAI
      (\<lambda>n. if n = 3 then Resolved 200
           else Rejected \<lparr>err_status = Some 503, err_data_message = None,
                  err_code = None, err_message = ''Request failed with status code 503''\<rparr>)
      ''123e4567-e89b-12d3-a456-426614174000'' ''https://github.com/acme/api.git'' (7 :: nat) =
    (\<lparr>success = True, error = None\<rparr>, [Post 1, Sleep 1000, Post 2, Sleep 2000, Post 3])"
proof -
  let ?e = "\<lparr>err_status = Some 503, err_data_message = None, err_code = None,
              err_message = ''Request failed with status code 503''\<rparr>"
  let ?net = "\<lambda>n :: nat. if n = 3 then Resolved 200 else Rejected ?e"
  have h1: "?net 1 = Rejected ?e" and h2: "?net 2 = Rejected ?e"
    and h3: "?net 3 = Resolved 200" and hs: "err_status ?e = Some 503"
    by simp_all
  have lo: "(500 :: nat) \<le> 503" and hi: "(503 :: nat) < 600" by simp_all
  show ?thesis
    by (rule retry_law_5xx_5xx_200 [OF valid_projectId valid_repoUrl h1 hs lo hi h2 hs lo hi h3])
qed

text \<open>
  Claim C6. A submission with a valid project identifier and locator whose first request
  meets an HTTP 4xx status (as the rejection axios raises for it, or as a resolved response)
  returns a failure after exactly one request: no retry and no backoff wait.
\<close>

theorem client_error_not_retried:
  assumes "isValidUUID projectId" and "isValidGitUrl repoUrl"
    and "400 \<le> c" and "c < 500"
    and "(\<exists>e. net 1 = Rejected e \<and> err_status e = Some c) \<or> net 1 = Resolved c"
  shows "sendRepositoryToAI net projectId repoUrl repoId =
     (\<lparr>success = False,
       error = Some (case net 1 of
                       Rejected e \<Rightarrow>
                         ''Client error: '' @ js_or (err_data_message e) (err_message e)
                     | Resolved st \<Rightarrow> ''Unexpected status: '' @ show_nat st)\<rparr>,
      [Post 1])"
proof -
  have one: "(1 :: nat) \<le> maxRetries"
    by (simp add: maxRetries_def)
  from assms(5) have "attempts net 1 =
     (\<lparr>success = False,
       error = Some (case net 1 of
                       Rejected e \<Rightarrow>
                         ''Client error: '' @ js_or (err_data_message e) (err_message e)
                     | Resolved st \<Rightarrow> ''Unexpected status: '' @ show_nat st)\<rparr>,
      [Post 1])"
  proof
    assume "\<exists>e. net 1 = Rejected e \<and> err_status e = Some c"
    then obtain e where e: "net 1 = Rejected e" "err_status e = Some c" by blast
    with assms(3,4) have "isClientError (err_status e)"
      by (simp add: isClientError_def)
    with e one show ?thesis
      by (subst attempts.simps) simp
  next
    assume r: "net 1 = Resolved c"
    from assms(3,4) have "c \<noteq> 200" "c \<noteq> 201" by simp_all
    with r one show ?thesis
      by (subst attempts.simps) simp
  qed
  with assms(1,2) show ?thesis
    by (simp add: sendRepositoryToAI_def)
qed

theorem client_error_not_retried_witness:
  "sendRepositoryToAI
      (\<lambda>n. Rejected \<lparr>err_status = Some 404, err_data_message = Some ''no such project'',
                  err_code = None, err_message = ''Request failed with status code 404''\<rparr>)
      ''123e4567-e89b-12d3-a456-426614174000'' ''https://github.com/acme/api.git''
      (7 :: nat) =
     (\<lparr>success = False, error = Some ''Client error: no such project''\<rparr>, [Post 1])"
proof -
  let ?e = "\<lparr>err_status = Some 404, err_data_message = Some ''no such project'',
              err_code = None, err_message = ''Request failed with status code 404''\<rparr>"
  have lo: "(400 :: nat) \<le> 404" and hi: "(404 :: nat) < 500" by simp_all
  have h: "(\<exists>e. (\<lambda>n :: nat. Rejected ?e) 1 = Rejected e \<and> err_status e = Some 404) \<or>
           (\<lambda>n :: nat. Rejected ?e) 1 = Resolved 404"
    by simp
  from client_error_not_retried [OF valid_projectId valid_repoUrl lo hi h, of "7 :: nat"]
  show ?thesis
    by (simp add: js_or_def)
qed

text \<open>
  Claim C7. When the project identifier is not in the canonical UUID form (8-4-4-4-12
  hexadecimal groups, case-insensitive), or the locator does not begin with \<^verbatim>\<open>http://\<close>,
  \<^verbatim>\<open>https://\<close>, \<^verbatim>\<open>git@\<close>, \<^verbatim>\<open>/\<close> or a drive letter followed by a colon and a backslash,
  the client returns a failure naming the invalid input and makes no request and no wait.
\<close>

theorem invalid_input_fails_fast:
  assumes "\<not> spec_isValidIdentifier projectId \<or> \<not> spec_isValidSourceLocator repoUrl"
  shows "success (fst (sendRepositoryToAI net projectId repoUrl repoId)) = False \<and>
         error (fst (sendRepositoryToAI net projectId repoUrl repoId)) \<in>
           {Some ''Invalid project ID format'', Some ''Invalid Git URL format''} \<and>
         snd (sendRepositoryToAI net projectId repoUrl repoId) = []"
proof -
  from assms have "\<not> isValidUUID projectId \<or> \<not> isValidGitUrl repoUrl"
    by (simp add: isValidUUID_spec isValidGitUrl_spec)
  then show ?thesis
    by (auto simp add: sendRepositoryToAI_def)
qed

theorem invalid_input_fails_fast_witness:
  "(\<not> spec_isValidIdentifier ''project-1'') \<and>
   success (fst (sendRepositoryToAI (\<lambda>n. Resolved 200) ''project-1''
      ''https://github.com/acme/api.git'' (7 :: nat))) = False \<and>
   snd (sendRepositoryToAI (\<lambda>n. Resolved 200) ''project-1''
      ''https://github.com/acme/api.git'' (7 :: nat)) = []"
proof -
  have h: "\<not> spec_isValidIdentifier ''project-1''"
    using invalid_projectId by (simp add: isValidUUID_spec)
  then have "\<not> spec_isValidIdentifier ''project-1'' \<or>
             \<not> spec_isValidSourceLocator ''https://github.com/acme/api.git''"
    by simp
  from invalid_input_fails_fast [OF this, of "\<lambda>n. Resolved 200" "7 :: nat"] h
  show ?thesis by simp
qed

text \<open>
  Claim C10. For every input and every behaviour of the network, the client returns a
  result (the retry loop is a total function: its recursion is shown to terminate, and no
  branch of it raises), after at most three requests and at most two backoff waits.
\<close>

theorem submit_terminates_bounded:
  "\<exists>r evs. sendRepositoryToAI net projectId repoUrl repoId = (r, evs) \<and>
     length (posts evs) \<le> 3 \<and> length (sleeps evs) \<le> 2"
proof -
  have "length (posts (snd (attempts net 1))) \<le> 3 \<and> length (sleeps (snd (attempts net 1))) \<le> 2"
    using attempts_bounds [of net 1] by (simp add: maxRetries_def)
  then have "length (posts (snd (sendRepositoryToAI net projectId repoUrl repoId))) \<le> 3 \<and>
      length (sleeps (snd (sendRepositoryToAI net projectId repoUrl repoId))) \<le> 2"
    by (simp add: sendRepositoryToAI_def posts_def sleeps_def)
  then show ?thesis
    by (cases "sendRepositoryToAI net projectId repoUrl repoId") simp
qed

section \<open>Properties of the store\<close>

lemma fold_max_ge: "(a :: nat) \<le> fold max xs a"
proof (induction xs arbitrary: a)
  case Nil
  show ?case by simp
next
  case (Cons x xs)
  have "a \<le> max x a" by simp
  also have "\<dots> \<le> fold max xs (max x a)" by (rule Cons.IH)
  finally show ?case by simp
qed

lemma fold_max_mem: "x \<in> set xs \<Longrightarrow> (x :: nat) \<le> fold max xs a"
proof (induction xs arbitrary: a)
  case Nil
  then show ?case by simp
next
  case (Cons y ys)
  show ?case
  proof (cases "x = y")
    case True
    have "x \<le> max y a" using True by simp
    also have "\<dots> \<le> fold max ys (max y a)" by (rule fold_max_ge)
    finally show ?thesis by simp
  next
    case False
    with Cons.prems have "x \<in> set ys" by simp
    then show ?thesis using Cons.IH by simp
  qed
qed

lemma fresh_id_fresh: "r \<in> set (repos st) \<Longrightarrow> repo_id r < fresh_id st"
  unfolding fresh_id_def using fold_max_mem [of "repo_id r" "map repo_id (repos st)" 0]
  by simp

lemma find_append_fresh: "\<forall>x \<in> set xs. \<not> P x \<Longrightarrow> find P (xs @ ys) = find P ys"
  by (induction xs) auto

lemma find_map_status:
  "find (\<lambda>r. repo_id r = k)
       (map (\<lambda>x. if repo_id x = t then x\<lparr>repo_status := s\<rparr> else x) xs) =
   (if k = t then map_option (\<lambda>x. x\<lparr>repo_status := s\<rparr>) (find (\<lambda>r. repo_id r = k) xs)
    else find (\<lambda>r. repo_id r = k) xs)"
  by (induction xs) auto

lemma map_id_status:
  "map repo_id (map (\<lambda>x. if repo_id x = k then x\<lparr>repo_status := s\<rparr> else x) xs) =
   map repo_id xs"
  by (induction xs) auto

lemma getRepo_id: "ProjectService_getRepo st k = Some r \<Longrightarrow> repo_id r = k"
  unfolding ProjectService_getRepo_def by (auto simp: find_Some_iff)

lemma getRepo_mem: "ProjectService_getRepo st k = Some r \<Longrightarrow> r \<in> set (repos st)"
  unfolding ProjectService_getRepo_def by (auto simp: find_Some_iff)

lemma getRepo_cong:
  "repos st1 = repos st \<Longrightarrow> ProjectService_getRepo st1 k = ProjectService_getRepo st k"
  by (simp add: ProjectService_getRepo_def)

lemma getRepo_unique:
  assumes "distinct (map repo_id (repos st))" and "ProjectService_getRepo st k = Some r"
    and "x \<in> set (repos st)" and "repo_id x = k"
  shows "x = r"
proof -
  from assms(1) have "inj_on repo_id (set (repos st))"
    by (simp add: distinct_map)
  moreover from assms(2) have "r \<in> set (repos st)" "repo_id r = k"
    by (auto dest: getRepo_mem getRepo_id)
  ultimately show ?thesis
    using assms(3,4) by (auto dest: inj_onD)
qed

lemma updateRepoStatus_Some:
  assumes "ProjectService_getRepo st k = Some r"
  shows "ProjectService_updateRepoStatus st k s =
     Inr (r\<lparr>repo_status := s\<rparr>,
          st\<lparr>repos := map (\<lambda>x. if repo_id x = k then x\<lparr>repo_status := s\<rparr> else x) (repos st)\<rparr>)"
  using assms by (simp add: ProjectService_updateRepoStatus_def)

lemma getRepo_after_update:
  "ProjectService_getRepo
     (st\<lparr>repos := map (\<lambda>x. if repo_id x = t then x\<lparr>repo_status := s\<rparr> else x) (repos st)\<rparr>) k =
   (if k = t then map_option (\<lambda>x. x\<lparr>repo_status := s\<rparr>) (ProjectService_getRepo st k)
    else ProjectService_getRepo st k)"
  by (simp add: ProjectService_getRepo_def find_map_status)

lemma addDependency_repos:
  "ProjectService_addDependency st a b = Inr (dep, st1) \<Longrightarrow> repos st1 = repos st"
  by (auto simp add: ProjectService_addDependency_def Let_def split: if_splits)

lemma addDependency_target:
  "ProjectService_addDependency st a b = Inr p \<Longrightarrow> \<exists>r. ProjectService_getRepo st b = Some r"
  by (auto simp add: ProjectService_addDependency_def split: if_splits)

lemma removeDependency_repos:
  "ProjectService_removeDependency st a b = Inr st1 \<Longrightarrow> repos st1 = repos st"
  by (auto simp add: ProjectService_removeDependency_def Let_def split: if_splits)

lemma count_before_removal:
  assumes "ProjectService_removeDependency st a b = Inr st1"
  shows "0 < ProjectService_countIncomingDependencies st b"
proof -
  from assms have "\<lparr>dep_source = a, dep_target = b\<rparr> \<in> set (deps st)"
    by (auto simp add: ProjectService_removeDependency_def Let_def split: if_splits)
  then have "\<lparr>dep_source = a, dep_target = b\<rparr> \<in> set (filter (\<lambda>d. dep_target d = b) (deps st))"
    by simp
  then show ?thesis
    unfolding ProjectService_countIncomingDependencies_def
    by (metis length_pos_if_in_set)
qed

section \<open>Properties of the orchestrator\<close>

subsection \<open>What each handler computes\<close>

lemma addRepo_run:
  fixes st projectId name url type
  defines "repo \<equiv> \<lparr>repo_id = fresh_id st, repo_projectId = projectId, repo_name = name,
     repo_url = url, repo_type = type,
     repo_status = (if type = ''SERVER'' then PENDING else UNTRACKED)\<rparr>"
  shows "ProjectController_addRepo st projectId name url type =
      (Response 200 (RepoBody repo), st\<lparr>repos := repos st @ [repo]\<rparr>,
       [Stored repo, Emit ''repository:added'' projectId repo] @
       (if type = ''SERVER'' then
          [Submit \<lparr>task_projectId = projectId, task_url = url, task_repoId = repo_id repo\<rparr>]
        else []))"
    and "ProjectService_getRepo (st\<lparr>repos := repos st @ [repo]\<rparr>) (repo_id repo) = Some repo"
proof -
  show "ProjectController_addRepo st projectId name url type =
      (Response 200 (RepoBody repo), st\<lparr>repos := repos st @ [repo]\<rparr>,
       [Stored repo, Emit ''repository:added'' projectId repo] @
       (if type = ''SERVER'' then
          [Submit \<lparr>task_projectId = projectId, task_url = url, task_repoId = repo_id repo\<rparr>]
        else []))"
    by (simp add: ProjectController_addRepo_def ProjectService_addRepo_def repo_def Let_def)
  have fresh: "\<forall>x \<in> set (repos st). \<not> repo_id x = repo_id repo"
  proof
    fix x assume "x \<in> set (repos st)"
    then have "repo_id x < fresh_id st" by (rule fresh_id_fresh)
    then show "\<not> repo_id x = repo_id repo" by (simp add: repo_def)
  qed
  show "ProjectService_getRepo (st\<lparr>repos := repos st @ [repo]\<rparr>) (repo_id repo) = Some repo"
    using find_append_fresh [OF fresh, of "[repo]"] by (simp add: ProjectService_getRepo_def)
qed

lemma createDependency_run:
  assumes "ProjectService_addDependency st sourceRepoId targetRepoId = Inr (dep, st1)"
    and "ProjectService_getRepo st targetRepoId = Some r"
  shows "ProjectController_createDependency st sourceRepoId targetRepoId =
     (if repo_status r = UNTRACKED then
        (Response 200 (DependencyBody dep),
         st1\<lparr>repos := map (\<lambda>x. if repo_id x = targetRepoId then x\<lparr>repo_status := PENDING\<rparr>
                                 else x) (repos st1)\<rparr>,
         [Stored (r\<lparr>repo_status := PENDING\<rparr>),
          Emit ''repository:updated'' (repo_projectId r) (r\<lparr>repo_status := PENDING\<rparr>),
          Submit \<lparr>task_projectId = repo_projectId r, task_url = repo_url r,
                  task_repoId = targetRepoId\<rparr>])
      else (Response 200 (DependencyBody dep), st1, []))"
proof -
  have look1: "ProjectService_getRepo st1 k = ProjectService_getRepo st k" for k
    using addDependency_repos [OF assms(1)] by (rule getRepo_cong)
  have rid: "repo_id r = targetRepoId"
    using assms(2) by (rule getRepo_id)
  have upd: "ProjectService_updateRepoStatus st1 targetRepoId PENDING =
      Inr (r\<lparr>repo_status := PENDING\<rparr>,
           st1\<lparr>repos := map (\<lambda>x. if repo_id x = targetRepoId then x\<lparr>repo_status := PENDING\<rparr>
                                   else x) (repos st1)\<rparr>)"
    using assms(2) look1 by (simp add: updateRepoStatus_Some)
  show ?thesis
    using assms rid upd look1 by (simp add: ProjectController_createDependency_def)
qed

lemma deleteDependency_run:
  assumes "ProjectService_removeDependency st sourceRepoId targetRepoId = Inr st1"
    and "ProjectService_getRepo st targetRepoId = Some r"
  shows "ProjectController_deleteDependency st sourceRepoId targetRepoId =
     (if ProjectService_countIncomingDependencies st1 targetRepoId = 0 \<and>
         repo_type r \<noteq> ''SERVER'' then
        (Response 200 SuccessBody,
         st1\<lparr>repos := map (\<lambda>x. if repo_id x = targetRepoId then x\<lparr>repo_status := UNTRACKED\<rparr>
                                 else x) (repos st1)\<rparr>,
         [Stored (r\<lparr>repo_status := UNTRACKED\<rparr>),
          Emit ''repository:updated'' (repo_projectId r) (r\<lparr>repo_status := UNTRACKED\<rparr>)])
      else (Response 200 SuccessBody, st1, []))"
proof -
  have look1: "ProjectService_getRepo st1 k = ProjectService_getRepo st k" for k
    using removeDependency_repos [OF assms(1)] by (rule getRepo_cong)
  have rid: "repo_id r = targetRepoId"
    using assms(2) by (rule getRepo_id)
  have upd: "ProjectService_updateRepoStatus st1 targetRepoId UNTRACKED =
      Inr (r\<lparr>repo_status := UNTRACKED\<rparr>,
           st1\<lparr>repos := map (\<lambda>x. if repo_id x = targetRepoId then x\<lparr>repo_status := UNTRACKED\<rparr>
                                   else x) (repos st1)\<rparr>)"
    using assms(2) look1 by (simp add: updateRepoStatus_Some)
  show ?thesis
    using assms rid upd look1 by (auto simp add: ProjectController_deleteDependency_def Let_def)
qed

lemma addRepo_at_start:
  "handle empty_store (AddRepo ''123e4567-e89b-12d3-a456-426614174000'' ''api''
       ''https://github.com/acme/api.git'' ''SERVER'') =
     (Response 200 (RepoBody repoA), \<lparr>repos = [repoA], deps = []\<rparr>,
      [Stored repoA, Emit ''repository:added'' ''123e4567-e89b-12d3-a456-426614174000'' repoA,
       Submit taskA])"
  by (simp add: ProjectController_addRepo_def ProjectService_addRepo_def fresh_id_def
      empty_store_def repoA_def taskA_def Let_def)

subsection \<open>Creation and dependency changes\<close>

text \<open>
  Claim C1. Every repository creation stores the repository and answers with it. If the
  type is \<^verbatim>\<open>SERVER\<close>, its status is \<^verbatim>\<open>PENDING\<close> and exactly one submission is launched,
  carrying the project, the repository's own locator and its identifier; otherwise its
  status is \<^verbatim>\<open>UNTRACKED\<close> and no submission is launched.
\<close>

theorem addRepo_status_and_submission:
  "case ProjectController_addRepo st projectId name url type of
     (resp, st1, effs) \<Rightarrow>
       \<exists>repo. resp = Response 200 (RepoBody repo) \<and>
         ProjectService_getRepo st1 (repo_id repo) = Some repo \<and>
         repo_url repo = url \<and> repo_type repo = type \<and>
         (if type = ''SERVER'' then
            repo_status repo = PENDING \<and>
            submissions effs =
              [\<lparr>task_projectId = projectId, task_url = repo_url repo, task_repoId = repo_id repo\<rparr>]
          else repo_status repo = UNTRACKED \<and> submissions effs = [])"
proof -
  let ?repo = "\<lparr>repo_id = fresh_id st, repo_projectId = projectId, repo_name = name,
     repo_url = url, repo_type = type,
     repo_status = (if type = ''SERVER'' then PENDING else UNTRACKED)\<rparr>"
  have look: "ProjectService_getRepo (st\<lparr>repos := repos st @ [?repo]\<rparr>) (repo_id ?repo) = Some ?repo"
    by (rule addRepo_run(2))
  show ?thesis
    unfolding addRepo_run(1) using look by (simp add: submissions_def)
qed

text \<open>
  Claim C2. A dependency addition that the store accepts, onto a target \<open>r\<close>: if \<open>r\<close> is
  \<^verbatim>\<open>UNTRACKED\<close>, it becomes \<^verbatim>\<open>PENDING\<close> by exactly one write, the update is broadcast and
  exactly one submission is launched, for the target; if \<open>r\<close> has any other status (as every
  server has), its status stays and nothing is written, broadcast or submitted. No other
  repository changes in either case.
\<close>

theorem createDependency_triggers_once:
  assumes "ProjectService_addDependency st sourceRepoId targetRepoId = Inr (dep, st1)"
    and "ProjectService_getRepo st targetRepoId = Some r"
  shows "case ProjectController_createDependency st sourceRepoId targetRepoId of
     (resp, st2, effs) \<Rightarrow>
       resp = Response 200 (DependencyBody dep) \<and>
       deps st2 = deps st1 \<and>
       (\<forall>k. k \<noteq> targetRepoId \<longrightarrow> ProjectService_getRepo st2 k = ProjectService_getRepo st k) \<and>
       (if repo_status r = UNTRACKED then
          ProjectService_getRepo st2 targetRepoId = Some (r\<lparr>repo_status := PENDING\<rparr>) \<and>
          effs = [Stored (r\<lparr>repo_status := PENDING\<rparr>),
                  Emit ''repository:updated'' (repo_projectId r) (r\<lparr>repo_status := PENDING\<rparr>),
                  Submit \<lparr>task_projectId = repo_projectId r, task_url = repo_url r,
                          task_repoId = targetRepoId\<rparr>]
        else ProjectService_getRepo st2 targetRepoId = Some r \<and> effs = [])"
proof -
  have look1: "ProjectService_getRepo st1 k = ProjectService_getRepo st k" for k
    using addDependency_repos [OF assms(1)] by (rule getRepo_cong)
  show ?thesis
    unfolding createDependency_run [OF assms]
    using assms(2) look1 by (simp add: getRepo_after_update)
qed

theorem createDependency_triggers_once_witness:
  "ProjectService_addDependency \<lparr>repos = [repoA, repoB], deps = []\<rparr> 1 2 =
     Inr (\<lparr>dep_source = 1, dep_target = 2\<rparr>,
          \<lparr>repos = [repoA, repoB], deps = [\<lparr>dep_source = 1, dep_target = 2\<rparr>]\<rparr>) \<and>
   ProjectService_getRepo \<lparr>repos = [repoA, repoB], deps = []\<rparr> 2 = Some repoB \<and>
   snd (snd (ProjectController_createDependency \<lparr>repos = [repoA, repoB], deps = []\<rparr> 1 2)) =
     [Stored (repoB\<lparr>repo_status := PENDING\<rparr>),
      Emit ''repository:updated'' (repo_projectId repoB) (repoB\<lparr>repo_status := PENDING\<rparr>),
      Submit \<lparr>task_projectId = repo_projectId repoB, task_url = repo_url repoB,
              task_repoId = 2\<rparr>]"
proof -
  let ?st = "\<lparr>repos = [repoA, repoB], deps = []\<rparr>"
  have h1: "ProjectService_addDependency ?st 1 2 =
     Inr (\<lparr>dep_source = 1, dep_target = 2\<rparr>,
          \<lparr>repos = [repoA, repoB], deps = [\<lparr>dep_source = 1, dep_target = 2\<rparr>]\<rparr>)"
    by (simp add: ProjectService_addDependency_def ProjectService_getRepo_def repoA_def repoB_def
        Let_def)
  have h2: "ProjectService_getRepo ?st 2 = Some repoB"
    by (simp add: ProjectService_getRepo_def repoA_def repoB_def)
  have u: "repo_status repoB = UNTRACKED" by (simp add: repoB_def)
  from createDependency_triggers_once [OF h1 h2] u h1 h2 show ?thesis
    by (simp add: split_beta)
qed

text \<open>
  Claim C3. A dependency removal that the store accepts, from a target \<open>r\<close> (which had at
  least one incoming edge): if no incoming edge is left and \<open>r\<close> is not of type
  \<^verbatim>\<open>SERVER\<close>, the status of \<open>r\<close> becomes \<^verbatim>\<open>UNTRACKED\<close>, whatever it was, and the update is
  broadcast; if an incoming edge is left or \<open>r\<close> is of type \<^verbatim>\<open>SERVER\<close>, the target is
  unchanged and nothing is broadcast. No other repository changes in either case.
\<close>

theorem deleteDependency_orphan_reverts:
  assumes "ProjectService_removeDependency st sourceRepoId targetRepoId = Inr st1"
    and "ProjectService_getRepo st targetRepoId = Some r"
  shows "case ProjectController_deleteDependency st sourceRepoId targetRepoId of
     (resp, st2, effs) \<Rightarrow>
       resp = Response 200 SuccessBody \<and>
       deps st2 = deps st1 \<and>
       0 < ProjectService_countIncomingDependencies st targetRepoId \<and>
       (\<forall>k. k \<noteq> targetRepoId \<longrightarrow> ProjectService_getRepo st2 k = ProjectService_getRepo st k) \<and>
       (if ProjectService_countIncomingDependencies st1 targetRepoId = 0 \<and>
           repo_type r \<noteq> ''SERVER'' then
          ProjectService_getRepo st2 targetRepoId = Some (r\<lparr>repo_status := UNTRACKED\<rparr>) \<and>
          effs = [Stored (r\<lparr>repo_status := UNTRACKED\<rparr>),
                  Emit ''repository:updated'' (repo_projectId r) (r\<lparr>repo_status := UNTRACKED\<rparr>)]
        else ProjectService_getRepo st2 targetRepoId = Some r \<and> effs = [])"
proof -
  have look1: "ProjectService_getRepo st1 k = ProjectService_getRepo st k" for k
    using removeDependency_repos [OF assms(1)] by (rule getRepo_cong)
  have pos: "0 < ProjectService_countIncomingDependencies st targetRepoId"
    using assms(1) by (rule count_before_removal)
  show ?thesis
    unfolding deleteDependency_run [OF assms]
    using assms(2) look1 pos by (simp add: getRepo_after_update)
qed

theorem deleteDependency_orphan_reverts_witness:
  "ProjectService_removeDependency
      \<lparr>repos = [repoA, repoB\<lparr>repo_status := INDEXED\<rparr>],
        deps = [\<lparr>dep_source = 1, dep_target = 2\<rparr>]\<rparr> 1 2 =
     Inr \<lparr>repos = [repoA, repoB\<lparr>repo_status := INDEXED\<rparr>], deps = []\<rparr> \<and>
   ProjectService_getRepo
      \<lparr>repos = [repoA, repoB\<lparr>repo_status := INDEXED\<rparr>],
        deps = [\<lparr>dep_source = 1, dep_target = 2\<rparr>]\<rparr> 2 =
     Some (repoB\<lparr>repo_status := INDEXED\<rparr>) \<and>
   ProjectService_getRepo
     (fst (snd (ProjectController_deleteDependency
        \<lparr>repos = [repoA, repoB\<lparr>repo_status := INDEXED\<rparr>],
          deps = [\<lparr>dep_source = 1, dep_target = 2\<rparr>]\<rparr> 1 2))) 2 = Some repoB"
proof -
  let ?st = "\<lparr>repos = [repoA, repoB\<lparr>repo_status := INDEXED\<rparr>],
              deps = [\<lparr>dep_source = 1, dep_target = 2\<rparr>]\<rparr>"
  have h1: "ProjectService_removeDependency ?st 1 2 =
      Inr \<lparr>repos = [repoA, repoB\<lparr>repo_status := INDEXED\<rparr>], deps = []\<rparr>"
    by (simp add: ProjectService_removeDependency_def Let_def)
  have h2: "ProjectService_getRepo ?st 2 = Some (repoB\<lparr>repo_status := INDEXED\<rparr>)"
    by (simp add: ProjectService_getRepo_def repoA_def repoB_def)
  have c: "ProjectService_countIncomingDependencies
      \<lparr>repos = [repoA, repoB\<lparr>repo_status := INDEXED\<rparr>], deps = []\<rparr> 2 = 0"
    by (simp add: ProjectService_countIncomingDependencies_def)
  have t: "repo_type (repoB\<lparr>repo_status := INDEXED\<rparr>) \<noteq> ''SERVER''"
    by (simp add: repoB_def)
  have e: "repoB\<lparr>repo_status := INDEXED, repo_status := UNTRACKED\<rparr> = repoB"
    by (simp add: repoB_def)
  from deleteDependency_orphan_reverts [OF h1 h2] c t e h1 h2 show ?thesis
    by (simp add: split_beta)
qed

subsection \<open>The read path\<close>

text \<open>
  Claim C9. A graph request that gives a project identifier, and whose fetch from the
  external service fails (the fetch is rejected, or the response is not OK, or its body
  does not parse), is answered with the empty graph \<^verbatim>\<open>{ nodes: [], edges: [] }\<close> and the
  default status, not with an error.
\<close>

theorem getGraph_failure_gives_empty_graph:
  assumes "query_projectId = Some projectId" and "projectId \<noteq> []"
    and "fetch (js_or env ''http://localhost:8000'' @ ''/graph-data?project_id='' @ projectId)
           = outcome"
    and "(\<exists>msg. outcome = FetchRejected msg) \<or>
         (\<exists>r. outcome = FetchResolved r \<and> (\<not> resp_ok r \<or> resp_json r = None))"
  shows "ProjectController_getGraph env fetch query_projectId =
           Response 200 (JsonBody empty_graph)"
proof -
  from assms(4) show ?thesis
  proof
    assume "\<exists>msg. outcome = FetchRejected msg"
    with assms(1-3) show ?thesis
      by (auto simp add: ProjectController_getGraph_def Let_def)
  next
    assume "\<exists>r. outcome = FetchResolved r \<and> (\<not> resp_ok r \<or> resp_json r = None)"
    with assms(1-3) show ?thesis
      by (auto simp add: ProjectController_getGraph_def Let_def)
  qed
qed

theorem getGraph_failure_gives_empty_graph_witness:
  "ProjectController_getGraph None (\<lambda>endpoint. FetchRejected ''fetch failed'')
     (Some ''123e4567-e89b-12d3-a456-426614174000'') = Response 200 (JsonBody empty_graph)"
proof -
  have h1: "Some ''123e4567-e89b-12d3-a456-426614174000'' =
      Some ''123e4567-e89b-12d3-a456-426614174000''"
    by (rule refl)
  have h2: "''123e4567-e89b-12d3-a456-426614174000'' \<noteq> []" by simp
  have h3: "(\<lambda>endpoint. FetchRejected ''fetch failed'')
      (js_or None ''http://localhost:8000'' @ ''/graph-data?project_id='' @
         ''123e4567-e89b-12d3-a456-426614174000'') = FetchRejected ''fetch failed''"
    by simp
  have h4: "(\<exists>msg. FetchRejected ''fetch failed'' = FetchRejected msg) \<or>
      (\<exists>r. FetchRejected ''fetch failed'' = FetchResolved r \<and>
           (\<not> resp_ok r \<or> resp_json r = None))"
    by simp
  show ?thesis
    by (rule getGraph_failure_gives_empty_graph [OF h1 h2 h3 h4])
qed

subsection \<open>Servers stand alone: the invariant\<close>

lemma update_keeps_inv:
  assumes "store_inv st" and "ProjectService_updateRepoStatus st k s = Inr (r', st1)"
    and "s = UNTRACKED \<longrightarrow> (\<exists>r. ProjectService_getRepo st k = Some r \<and> repo_type r \<noteq> ''SERVER'')"
  shows "store_inv st1"
proof -
  from assms(2) obtain r where r: "ProjectService_getRepo st k = Some r"
    and st1: "st1 = st\<lparr>repos := map (\<lambda>x. if repo_id x = k then x\<lparr>repo_status := s\<rparr> else x)
                                   (repos st)\<rparr>"
    by (auto simp add: ProjectService_updateRepoStatus_def split: option.splits)
  have d: "distinct (map repo_id (repos st))"
    using assms(1) by (simp add: store_inv_def)
  have "repo_type y = ''SERVER'' \<longrightarrow> repo_status y \<noteq> UNTRACKED" if y: "y \<in> set (repos st1)" for y
  proof -
    from y st1 obtain x where x: "x \<in> set (repos st)"
      and yx: "y = (if repo_id x = k then x\<lparr>repo_status := s\<rparr> else x)"
      by auto
    show ?thesis
    proof (cases "repo_id x = k")
      case False
      with yx x assms(1) show ?thesis by (simp add: store_inv_def)
    next
      case True
      with d r x have "x = r" by (rule getRepo_unique)
      with True yx have y': "y = r\<lparr>repo_status := s\<rparr>" by simp
      show ?thesis
      proof (cases "s = UNTRACKED")
        case True
        with assms(3) r have "repo_type r \<noteq> ''SERVER''" by auto
        with y' show ?thesis by simp
      next
        case False
        with y' show ?thesis by simp
      qed
    qed
  qed
  moreover have "distinct (map repo_id (repos st1))"
    using d st1 by (simp add: map_id_status del: map_map)
  ultimately show ?thesis
    by (simp add: store_inv_def)
qed

lemma addRepo_keeps_inv:
  assumes "store_inv st"
    and "ProjectController_addRepo st projectId name url type = (resp, st1, effs)"
  shows "store_inv st1"
proof -
  define repo where "repo = \<lparr>repo_id = fresh_id st, repo_projectId = projectId, repo_name = name,
     repo_url = url, repo_type = type,
     repo_status = (if type = ''SERVER'' then PENDING else UNTRACKED)\<rparr>"
  from assms(2) have st1: "st1 = st\<lparr>repos := repos st @ [repo]\<rparr>"
    by (simp add: addRepo_run(1) repo_def)
  have "repo_id repo \<notin> set (map repo_id (repos st))"
  proof
    assume "repo_id repo \<in> set (map repo_id (repos st))"
    then obtain x where "x \<in> set (repos st)" "repo_id x = repo_id repo" by auto
    with fresh_id_fresh [of x st] show False by (simp add: repo_def)
  qed
  moreover have "repo_type repo = ''SERVER'' \<longrightarrow> repo_status repo \<noteq> UNTRACKED"
    by (simp add: repo_def)
  ultimately show ?thesis
    using assms(1) st1 by (auto simp add: store_inv_def)
qed

lemma createDependency_keeps_inv:
  assumes "store_inv st"
    and "ProjectController_createDependency st a b = (resp, st2, effs)"
  shows "store_inv st2"
proof (cases "ProjectService_addDependency st a b")
  case (Inl msg)
  with assms show ?thesis by (simp add: ProjectController_createDependency_def)
next
  case (Inr p)
  obtain dep st1 where p: "p = (dep, st1)" by (cases p)
  from Inr obtain r where r: "ProjectService_getRepo st b = Some r"
    using addDependency_target by blast
  have add: "ProjectService_addDependency st a b = Inr (dep, st1)"
    using Inr p by simp
  have inv1: "store_inv st1"
    using assms(1) addDependency_repos [OF add] by (simp add: store_inv_def)
  have look1: "ProjectService_getRepo st1 b = Some r"
    using r addDependency_repos [OF add] by (simp add: ProjectService_getRepo_def)
  show ?thesis
  proof (cases "repo_status r = UNTRACKED")
    case False
    with assms(2) inv1 show ?thesis
      by (simp add: createDependency_run [OF add r])
  next
    case True
    have "store_inv (st1\<lparr>repos := map (\<lambda>x. if repo_id x = b then x\<lparr>repo_status := PENDING\<rparr>
                                 else x) (repos st1)\<rparr>)"
      using update_keeps_inv [OF inv1 updateRepoStatus_Some [OF look1, of PENDING]] by simp
    with assms(2) True show ?thesis
      by (simp add: createDependency_run [OF add r])
  qed
qed

lemma deleteDependency_keeps_inv:
  assumes "store_inv st"
    and "ProjectController_deleteDependency st a b = (resp, st2, effs)"
  shows "store_inv st2"
proof (cases "ProjectService_removeDependency st a b")
  case (Inl msg)
  with assms show ?thesis by (simp add: ProjectController_deleteDependency_def)
next
  case (Inr st1)
  have inv1: "store_inv st1"
    using assms(1) removeDependency_repos [OF Inr] by (simp add: store_inv_def)
  show ?thesis
  proof (cases "ProjectService_getRepo st b")
    case None
    then have "ProjectService_getRepo st1 b = None"
      using removeDependency_repos [OF Inr] by (simp add: ProjectService_getRepo_def)
    with assms(2) Inr inv1 show ?thesis
      by (auto simp add: ProjectController_deleteDependency_def Let_def split: if_splits)
  next
    case (Some r)
    have look1: "ProjectService_getRepo st1 b = Some r"
      using Some removeDependency_repos [OF Inr] by (simp add: ProjectService_getRepo_def)
    show ?thesis
    proof (cases "ProjectService_countIncomingDependencies st1 b = 0 \<and> repo_type r \<noteq> ''SERVER''")
      case False
      with assms(2) inv1 show ?thesis
        by (auto simp add: deleteDependency_run [OF Inr Some])
    next
      case True
      have "store_inv (st1\<lparr>repos := map (\<lambda>x. if repo_id x = b then x\<lparr>repo_status := UNTRACKED\<rparr>
                                   else x) (repos st1)\<rparr>)"
        using update_keeps_inv [OF inv1 updateRepoStatus_Some [OF look1, of UNTRACKED]] look1 True
        by simp
      with assms(2) True show ?thesis
        by (simp add: deleteDependency_run [OF Inr Some])
    qed
  qed
qed

lemma handle_keeps_inv:
  "store_inv st \<Longrightarrow> handle st trig = (resp, st1, effs) \<Longrightarrow> store_inv st1"
  by (cases trig)
     (auto intro: addRepo_keeps_inv createDependency_keeps_inv deleteDependency_keeps_inv)

lemma settled_keeps_inv:
  assumes "store_inv st" and "submission_settled st t result = (st1, effs)"
  shows "store_inv st1"
proof (cases "ProjectService_updateRepoStatus st (task_repoId t) (terminal_status result)")
  case (Inr q)
  obtain r' st' where q: "q = (r', st')" by (cases q)
  have "terminal_status result \<noteq> UNTRACKED" by (simp add: terminal_status_def)
  with Inr q assms(1) have "store_inv st'"
    using update_keeps_inv [of st "task_repoId t" "terminal_status result" r' st'] by simp
  with assms(2) Inr q show ?thesis
    by (simp add: submission_settled_def)
next
  case (Inl msg)
  show ?thesis
  proof (cases "ProjectService_updateRepoStatus st (task_repoId t) FAILED")
    case inl2: (Inl msg')
    with assms Inl show ?thesis by (simp add: submission_settled_def)
  next
    case (Inr q)
    obtain r' st' where q: "q = (r', st')" by (cases q)
    with Inr assms(1) have "store_inv st'"
      using update_keeps_inv [of st "task_repoId t" FAILED r' st'] by simp
    with assms(2) Inl Inr q show ?thesis
      by (simp add: submission_settled_def)
  qed
qed

lemma complete_keeps_inv:
  assumes "store_inv st" and "complete_submission net st t = (st1, effs)"
  shows "store_inv st1"
proof -
  obtain result evs where
    c: "sendRepositoryToAI net (task_projectId t) (task_url t) (task_repoId t) = (result, evs)"
    by (cases "sendRepositoryToAI net (task_projectId t) (task_url t) (task_repoId t)")
  obtain st' effs' where s: "submission_settled st t result = (st', effs')"
    by (cases "submission_settled st t result")
  from assms(2) c s have "st1 = st'"
    by (simp add: complete_submission_def)
  with assms(1) s show ?thesis
    by (auto intro: settled_keeps_inv)
qed

lemma reachable_inv: "reachable s \<Longrightarrow> store_inv (sys_store s)"
proof (induction rule: reachable.induct)
  case start
  show ?case by (simp add: store_inv_def empty_store_def)
next
  case (request s trig resp st1 effs)
  then show ?case by (auto intro: handle_keeps_inv)
next
  case (settle s i net st1 effs)
  then show ?case by (auto intro: complete_keeps_inv)
qed

text \<open>
  Claim C4. In every state the server reaches by creations, dependency additions,
  dependency removals and settled submissions, in any order and against any network, no
  repository of type \<^verbatim>\<open>SERVER\<close> has the status \<^verbatim>\<open>UNTRACKED\<close>.
\<close>

theorem server_never_untracked:
  assumes "reachable s" and "r \<in> set (repos (sys_store s))" and "repo_type r = ''SERVER''"
  shows "repo_status r \<noteq> UNTRACKED"
proof -
  from assms(1) have "store_inv (sys_store s)" by (rule reachable_inv)
  with assms(2,3) show ?thesis
    by (simp add: store_inv_def)
qed

theorem server_never_untracked_witness:
  "reachable \<lparr>sys_store = \<lparr>repos = [repoA], deps = []\<rparr>, in_flight = [taskA]\<rparr> \<and>
   repoA \<in> set (repos (sys_store
      \<lparr>sys_store = \<lparr>repos = [repoA], deps = []\<rparr>, in_flight = [taskA]\<rparr>)) \<and>
   repo_type repoA = ''SERVER'' \<and> repo_status repoA \<noteq> UNTRACKED"
proof -
  let ?s = "\<lparr>sys_store = \<lparr>repos = [repoA], deps = []\<rparr>, in_flight = [taskA]\<rparr>"
  have "handle (sys_store \<lparr>sys_store = empty_store, in_flight = []\<rparr>)
       (AddRepo ''123e4567-e89b-12d3-a456-426614174000'' ''api''
          ''https://github.com/acme/api.git'' ''SERVER'') =
     (Response 200 (RepoBody repoA), \<lparr>repos = [repoA], deps = []\<rparr>,
      [Stored repoA, Emit ''repository:added'' ''123e4567-e89b-12d3-a456-426614174000'' repoA,
       Submit taskA])"
    using addRepo_at_start by simp
  from reachable.request [OF reachable.start this]
  have r: "reachable ?s" by (simp add: submissions_def)
  have m: "repoA \<in> set (repos (sys_store ?s))" by simp
  have t: "repo_type repoA = ''SERVER''" by (simp add: repoA_def)
  from r m t server_never_untracked [OF r m t] show ?thesis by simp
qed

subsection \<open>The order of the transitions around a submission\<close>

lemma complete_submission_run:
  assumes "ProjectService_getRepo st (task_repoId t) = Some r"
    and "sendRepositoryToAI net (task_projectId t) (task_url t) (task_repoId t) = (res, ctr)"
  shows "complete_submission net st t =
     (st\<lparr>repos := map (\<lambda>x. if repo_id x = task_repoId t
                              then x\<lparr>repo_status := (if success res then INDEXED else FAILED)\<rparr>
                              else x) (repos st)\<rparr>,
      map Client ctr @
      [Settled t res,
       Stored (r\<lparr>repo_status := (if success res then INDEXED else FAILED)\<rparr>),
       Emit ''repository:updated'' (task_projectId t)
         (r\<lparr>repo_status := (if success res then INDEXED else FAILED)\<rparr>)])"
  using assms
  by (simp add: complete_submission_def submission_settled_def updateRepoStatus_Some
      terminal_status_def)

lemma handle_shape:
  assumes "handle st trig = (resp, st1, effs)"
  shows "submissions effs = [] \<and> (\<forall>t. Submit t \<notin> set effs) \<or>
    (\<exists>r e t. effs = [Stored r, Emit e (task_projectId t) r, Submit t] \<and>
       repo_id r = task_repoId t \<and> repo_status r = PENDING \<and>
       ProjectService_getRepo st1 (task_repoId t) = Some r)"
proof (cases trig)
  case (AddRepo projectId name url type)
  show ?thesis
  proof (cases "type = ''SERVER''")
    case False
    with assms AddRepo show ?thesis
      by (auto simp add: addRepo_run(1) submissions_def)
  next
    case True
    let ?r = "\<lparr>repo_id = fresh_id st, repo_projectId = projectId, repo_name = name,
      repo_url = url, repo_type = type,
      repo_status = (if type = ''SERVER'' then PENDING else UNTRACKED)\<rparr>"
    let ?t = "\<lparr>task_projectId = projectId, task_url = url, task_repoId = repo_id ?r\<rparr>"
    have "ProjectService_getRepo (st\<lparr>repos := repos st @ [?r]\<rparr>) (repo_id ?r) = Some ?r"
      by (rule addRepo_run(2))
    with assms AddRepo True
    have "effs = [Stored ?r, Emit ''repository:added'' (task_projectId ?t) ?r, Submit ?t] \<and>
       repo_id ?r = task_repoId ?t \<and> repo_status ?r = PENDING \<and>
       ProjectService_getRepo st1 (task_repoId ?t) = Some ?r"
      by (auto simp add: addRepo_run(1))
    then show ?thesis by blast
  qed
next
  case (CreateDependency a b)
  show ?thesis
  proof (cases "ProjectService_addDependency st a b")
    case (Inl msg)
    with assms CreateDependency show ?thesis
      by (simp add: ProjectController_createDependency_def submissions_def)
  next
    case (Inr p)
    obtain dep st' where p: "p = (dep, st')" by (cases p)
    from Inr obtain r where r: "ProjectService_getRepo st b = Some r"
      using addDependency_target by blast
    have add: "ProjectService_addDependency st a b = Inr (dep, st')"
      using Inr p by simp
    have rid: "repo_id r = b" using r by (rule getRepo_id)
    have look1: "ProjectService_getRepo st' b = Some r"
      using r addDependency_repos [OF add] by (simp add: ProjectService_getRepo_def)
    from assms CreateDependency rid look1 show ?thesis
      by (auto simp add: createDependency_run [OF add r] submissions_def getRepo_after_update
          split: if_splits)
  qed
next
  case (DeleteDependency a b)
  show ?thesis
  proof (cases "ProjectService_removeDependency st a b")
    case (Inl msg)
    with assms DeleteDependency show ?thesis
      by (simp add: ProjectController_deleteDependency_def submissions_def)
  next
    case (Inr st')
    show ?thesis
    proof (cases "ProjectService_getRepo st b")
      case None
      then have "ProjectService_getRepo st' b = None"
        using removeDependency_repos [OF Inr] by (simp add: ProjectService_getRepo_def)
      with assms DeleteDependency Inr show ?thesis
        by (auto simp add: ProjectController_deleteDependency_def Let_def submissions_def
            split: if_splits)
    next
      case (Some r)
      from assms DeleteDependency show ?thesis
        by (auto simp add: deleteDependency_run [OF Inr Some] submissions_def split: if_splits)
    qed
  qed
qed

text \<open>
  Claim C8. Whenever one triggering event (a creation or a dependency change) launches a
  submission \<open>t\<close> for a repository, then:
  \<^item> the handler's effects are exactly, in this order: the repository is stored with the
    status \<^verbatim>\<open>PENDING\<close>, that repository is broadcast, the submission is launched; and the
    store the handler leaves, which is the store while the submission is in flight, holds
    the repository with the status \<^verbatim>\<open>PENDING\<close> (so neither \<^verbatim>\<open>INDEXED\<close> nor \<^verbatim>\<open>FAILED\<close>);
  \<^item> all that follows is, in this order: the requests and waits of the client, the
    settling of the submission with the client's result, the repository stored with
    \<^verbatim>\<open>INDEXED\<close> if the result is a success and with \<^verbatim>\<open>FAILED\<close> if not, and the broadcast of
    that repository;
  \<^item> the store at the end is the one the continuation computes from the handler's store
    and the client's result; it holds the repository with \<^verbatim>\<open>INDEXED\<close> or \<^verbatim>\<open>FAILED\<close>
    accordingly, and every other repository as the handler left it.
\<close>

theorem transitions_ordered_around_submission:
  assumes "Submit t \<in> set (snd (run_event net st trig))"
  shows "\<exists>resp st1 e r ctr res.
     handle st trig = (resp, st1, [Stored r, Emit e (task_projectId t) r, Submit t]) \<and>
     ProjectService_getRepo st1 (task_repoId t) = Some r \<and>
     repo_status r = PENDING \<and>
     sendRepositoryToAI net (task_projectId t) (task_url t) (task_repoId t) = (res, ctr) \<and>
     snd (run_event net st trig) =
       [Stored r, Emit e (task_projectId t) r, Submit t] @ map Client ctr @
       [Settled t res,
        Stored (r\<lparr>repo_status := (if success res then INDEXED else FAILED)\<rparr>),
        Emit ''repository:updated'' (task_projectId t)
          (r\<lparr>repo_status := (if success res then INDEXED else FAILED)\<rparr>)] \<and>
     fst (run_event net st trig) = fst (submission_settled st1 t res) \<and>
     ProjectService_getRepo (fst (run_event net st trig)) (task_repoId t) =
       Some (r\<lparr>repo_status := (if success res then INDEXED else FAILED)\<rparr>) \<and>
     (\<forall>k. k \<noteq> task_repoId t \<longrightarrow>
        ProjectService_getRepo (fst (run_event net st trig)) k = ProjectService_getRepo st1 k)"
proof -
  obtain resp st1 effs where h: "handle st trig = (resp, st1, effs)"
    by (cases "handle st trig")
  obtain st2 effs2 where ca: "complete_all net st1 (submissions effs) = (st2, effs2)"
    by (cases "complete_all net st1 (submissions effs)")
  have run: "run_event net st trig = (st2, effs @ effs2)"
    using h ca by (simp add: run_event_def)
  from handle_shape [OF h] consider
      (none) "submissions effs = []" "\<forall>t. Submit t \<notin> set effs"
    | (submit) r e t0 where "effs = [Stored r, Emit e (task_projectId t0) r, Submit t0]"
        "repo_id r = task_repoId t0" "repo_status r = PENDING"
        "ProjectService_getRepo st1 (task_repoId t0) = Some r"
    by blast
  then show ?thesis
  proof cases
    case none
    with run ca assms show ?thesis by simp
  next
    case submit
    obtain res ctr where c:
      "sendRepositoryToAI net (task_projectId t0) (task_url t0) (task_repoId t0) = (res, ctr)"
      by (cases "sendRepositoryToAI net (task_projectId t0) (task_url t0) (task_repoId t0)")
    let ?s = "if success res then INDEXED else FAILED"
    let ?r' = "r\<lparr>repo_status := ?s\<rparr>"
    let ?st2 = "st1\<lparr>repos := map (\<lambda>x. if repo_id x = task_repoId t0
                              then x\<lparr>repo_status := ?s\<rparr> else x) (repos st1)\<rparr>"
    have cs: "complete_submission net st1 t0 =
        (?st2, map Client ctr @
           [Settled t0 res, Stored ?r', Emit ''repository:updated'' (task_projectId t0) ?r'])"
      using submit(4) c by (rule complete_submission_run)
    have subs: "submissions effs = [t0]"
      using submit(1) by (simp add: submissions_def)
    from ca cs subs have st2: "st2 = ?st2"
      and effs2: "effs2 = map Client ctr @
           [Settled t0 res, Stored ?r', Emit ''repository:updated'' (task_projectId t0) ?r']"
      by simp_all
    from assms run submit(1) effs2 have tt: "t = t0"
      by auto
    have settled: "fst (submission_settled st1 t0 res) = ?st2"
      using submit(4)
      by (simp add: submission_settled_def updateRepoStatus_Some terminal_status_def)
    have look2: "ProjectService_getRepo ?st2 (task_repoId t0) = Some ?r'"
      using submit(4) by (simp add: getRepo_after_update)
    have frame: "\<forall>k. k \<noteq> task_repoId t0 \<longrightarrow>
        ProjectService_getRepo ?st2 k = ProjectService_getRepo st1 k"
      by (simp add: getRepo_after_update)
    have "handle st trig = (resp, st1, [Stored r, Emit e (task_projectId t) r, Submit t]) \<and>
       ProjectService_getRepo st1 (task_repoId t) = Some r \<and>
       repo_status r = PENDING \<and>
       sendRepositoryToAI net (task_projectId t) (task_url t) (task_repoId t) = (res, ctr) \<and>
       snd (run_event net st trig) =
         [Stored r, Emit e (task_projectId t) r, Submit t] @ map Client ctr @
         [Settled t res, Stored ?r', Emit ''repository:updated'' (task_projectId t) ?r'] \<and>
       fst (run_event net st trig) = fst (submission_settled st1 t res) \<and>
       ProjectService_getRepo (fst (run_event net st trig)) (task_repoId t) = Some ?r' \<and>
       (\<forall>k. k \<noteq> task_repoId t \<longrightarrow>
          ProjectService_getRepo (fst (run_event net st trig)) k = ProjectService_getRepo st1 k)"
      unfolding tt run
      using h submit(1,3,4) c st2 effs2 settled look2 frame by simp
    then show ?thesis by blast
  qed
qed

theorem transitions_ordered_around_submission_witness:
  "Submit taskA \<in> set (snd (run_event (\<lambda>n. Resolved 200) empty_store
      (AddRepo ''123e4567-e89b-12d3-a456-426614174000'' ''api''
         ''https://github.com/acme/api.git'' ''SERVER''))) \<and>
   run_event (\<lambda>n. Resolved 200) empty_store
      (AddRepo ''123e4567-e89b-12d3-a456-426614174000'' ''api''
         ''https://github.com/acme/api.git'' ''SERVER'') =
     (\<lparr>repos = [repoA\<lparr>repo_status := INDEXED\<rparr>], deps = []\<rparr>,
      [Stored repoA,
       Emit ''repository:added'' ''123e4567-e89b-12d3-a456-426614174000'' repoA,
       Submit taskA,
       Client (Post 1),
       Settled taskA \<lparr>success = True, error = None\<rparr>,
       Stored (repoA\<lparr>repo_status := INDEXED\<rparr>),
       Emit ''repository:updated'' ''123e4567-e89b-12d3-a456-426614174000''
         (repoA\<lparr>repo_status := INDEXED\<rparr>)])"
proof -
  let ?net = "\<lambda>n :: nat. Resolved 200"
  let ?trig = "AddRepo ''123e4567-e89b-12d3-a456-426614174000'' ''api''
         ''https://github.com/acme/api.git'' ''SERVER''"
  have hd: "handle empty_store ?trig =
     (Response 200 (RepoBody repoA), \<lparr>repos = [repoA], deps = []\<rparr>,
      [Stored repoA, Emit ''repository:added'' ''123e4567-e89b-12d3-a456-426614174000'' repoA,
       Submit taskA])"
    by (rule addRepo_at_start)
  have m: "Submit taskA \<in> set (snd (run_event ?net empty_store ?trig))"
    using hd by (simp add: run_event_def split_beta)
  have client: "sendRepositoryToAI ?net (task_projectId taskA) (task_url taskA)
      (task_repoId taskA) = (\<lparr>success = True, error = None\<rparr>, [Post 1])"
    using valid_projectId valid_repoUrl attempts_ok [of ?net 1]
    by (simp add: sendRepositoryToAI_def taskA_def maxRetries_def)
  from transitions_ordered_around_submission [OF m]
  obtain resp st1 e r ctr res where
    f1: "handle empty_store ?trig =
      (resp, st1, [Stored r, Emit e (task_projectId taskA) r, Submit taskA])"
    and f2: "sendRepositoryToAI ?net (task_projectId taskA) (task_url taskA)
      (task_repoId taskA) = (res, ctr)"
    and f3: "snd (run_event ?net empty_store ?trig) =
       [Stored r, Emit e (task_projectId taskA) r, Submit taskA] @ map Client ctr @
       [Settled taskA res,
        Stored (r\<lparr>repo_status := (if success res then INDEXED else FAILED)\<rparr>),
        Emit ''repository:updated'' (task_projectId taskA)
          (r\<lparr>repo_status := (if success res then INDEXED else FAILED)\<rparr>)]"
    and f4: "fst (run_event ?net empty_store ?trig) = fst (submission_settled st1 taskA res)"
    by blast
  from f1 hd have r: "r = repoA" and e: "e = ''repository:added''"
    and st1: "st1 = \<lparr>repos = [repoA], deps = []\<rparr>"
    by simp_all
  from f2 client have res: "res = \<lparr>success = True, error = None\<rparr>" and ctr: "ctr = [Post 1]"
    by simp_all
  have fin: "fst (submission_settled \<lparr>repos = [repoA], deps = []\<rparr> taskA
      \<lparr>success = True, error = None\<rparr>) = \<lparr>repos = [repoA\<lparr>repo_status := INDEXED\<rparr>], deps = []\<rparr>"
    by (simp add: submission_settled_def ProjectService_updateRepoStatus_def
        ProjectService_getRepo_def terminal_status_def taskA_def repoA_def)
  have "run_event ?net empty_store ?trig =
      (fst (run_event ?net empty_store ?trig), snd (run_event ?net empty_store ?trig))"
    by simp
  also have "\<dots> = (\<lparr>repos = [repoA\<lparr>repo_status := INDEXED\<rparr>], deps = []\<rparr>,
      [Stored repoA,
       Emit ''repository:added'' ''123e4567-e89b-12d3-a456-426614174000'' repoA,
       Submit taskA,
       Client (Post 1),
       Settled taskA \<lparr>success = True, error = None\<rparr>,
       Stored (repoA\<lparr>repo_status := INDEXED\<rparr>),
       Emit ''repository:updated'' ''123e4567-e89b-12d3-a456-426614174000''
         (repoA\<lparr>repo_status := INDEXED\<rparr>)])"
    unfolding f3 f4 r e st1 res ctr fin by (simp add: taskA_def)
  finally show ?thesis using m by simp
qed

end
